theory Spec2Isabelle
  imports Main
begin

section \<open>JavaScript values seen by the push pipe\<close>

text \<open>
  The pipe is written against \<^verbatim>\<open>any\<close>-typed values: the bound input, the config argument,
  the render callback and the rendered value. They are modelled by one datatype.
  Observables, promises and observers are opaque references (a number names the object);
  an object literal is the table of its own properties, the first binding of a key being
  the effective one. Numbers are integers here (no \<^verbatim>\<open>NaN\<close>).
\<close>

datatype jsval =
    JUndefined
  | JNull
  | JBool bool
  | JNum int
  | JString string
  | JObservable nat
  | JObserver nat
  | JObject "(string \<times> jsval) list"

text \<open>\<^verbatim>\<open>if (v)\<close>: the falsy values are undefined, null, false, 0 and the empty string.\<close>

fun truthy :: "jsval \<Rightarrow> bool" where
  "truthy JUndefined = False"
| "truthy JNull = False"
| "truthy (JBool b) = b"
| "truthy (JNum n) = (n \<noteq> 0)"
| "truthy (JString s) = (s \<noteq> [])"
| "truthy (JObservable _) = True"
| "truthy (JObserver _) = True"
| "truthy (JObject _) = True"

text \<open>\<^verbatim>\<open>v == null\<close> (loose equality): true of null and undefined only.\<close>

fun nullish :: "jsval \<Rightarrow> bool" where
  "nullish JUndefined = True"
| "nullish JNull = True"
| "nullish _ = False"

text \<open>
  \<^verbatim>\<open>Object.prototype.hasOwnProperty.call(v, k)\<close>. The pipe asks only for the keys
  \<^verbatim>\<open>strategy\<close>, \<^verbatim>\<open>renderCallback\<close> and \<^verbatim>\<open>patchZone\<close>; no primitive, observable or
  observer has an own property of one of these names.
\<close>

fun hasOwnProperty :: "jsval \<Rightarrow> string \<Rightarrow> bool" where
  "hasOwnProperty (JObject ps) k = (k \<in> set (map fst ps))"
| "hasOwnProperty _ k = False"

text \<open>
  The property read \<^verbatim>\<open>v.k\<close> for the same three keys: the own property when there is one,
  else undefined (nothing on the prototype chain of a plain object carries these names).
\<close>

fun getProp :: "jsval \<Rightarrow> string \<Rightarrow> jsval" where
  "getProp (JObject ps) k = (case map_of ps k of Some v \<Rightarrow> v | None \<Rightarrow> JUndefined)"
| "getProp _ k = JUndefined"

section \<open>Notifications\<close>

text \<open>\<^verbatim>\<open>RxNotificationKind\<close> and the two fields of \<^verbatim>\<open>RxNotification\<close> the pipe reads.\<close>

datatype RxNotificationKind = Suspense | Next | Error | Complete

record RxNotification =
  kind :: RxNotificationKind
  "value" :: jsval

section \<open>The module-level functions of push.pipe.ts\<close>

text \<open>
  \<^verbatim>\<open>onlyValues\<close> is \<^verbatim>\<open>filter(n => n.kind === Suspense || n.kind === Next)\<close>:
  the predicate, and the operator on a finite run of emissions.
\<close>

definition onlyValues_pred :: "RxNotification \<Rightarrow> bool" where
  "onlyValues_pred n = (kind n = Suspense \<or> kind n = Next)"

definition onlyValues :: "RxNotification list \<Rightarrow> RxNotification list" where
  "onlyValues ns = filter onlyValues_pred ns"

definition isRxComponentInput :: "jsval \<Rightarrow> bool" where
  "isRxComponentInput v =
     (\<not> nullish v \<and>
      (hasOwnProperty v ''strategy'' \<or>
       hasOwnProperty v ''renderCallback'' \<or>
       hasOwnProperty v ''patchZone''))"

section \<open>The collaborators injected into the pipe\<close>

text \<open>
  The constructor receives the strategy provider, the change detector reference and the
  zone. Of the provider the pipe reads \<^verbatim>\<open>config.patchZone\<close> (a boolean) and calls \<^verbatim>\<open>schedule\<close>; of the
  change detector reference it reads \<^verbatim>\<open>context\<close>. The injected objects are named by numbers.
\<close>

record RxStrategyProvider =
  config_patchZone :: bool

record deps =
  strategyProvider :: RxStrategyProvider
  cdRef :: nat
  cdRef_context :: nat
  ngZone :: nat

text \<open>
  What \<^verbatim>\<open>strategyHandler.strategy$\<close> emits: strategy credentials, of which the pipe uses
  \<^verbatim>\<open>name\<close> and \<^verbatim>\<open>work\<close> (a function, named by a number).
\<close>

record RxStrategyCredentials =
  name :: string
  work :: nat

text \<open>The field \<^verbatim>\<open>patchZone: false | NgZone\<close>, which has no initialiser.\<close>

datatype zone_field = ZUndefined | ZFalse | ZNgZone nat

text \<open>
  One call \<^verbatim>\<open>strategyProvider.schedule(fn, { scope, strategy, patchZone })\<close>. The first
  argument is a closure over the strategy, the change detector reference, the scope and
  the notification; it is kept as the values it closes over, and \<open>run_work\<close> is its body.
\<close>

record work_closure =
  w_strategy :: RxStrategyCredentials
  w_cdRef :: nat
  w_scope :: nat
  w_notification :: RxNotification

record schedule_call =
  fn :: work_closure
  opt_scope :: nat
  opt_strategy :: string
  opt_patchZone :: zone_field

text \<open>One call \<^verbatim>\<open>strategy.work(cdRef, scope)\<close>: the change-detection tick.\<close>

record work_call =
  wc_work :: nat
  wc_cdRef :: nat
  wc_scope :: nat

text \<open>
  The body \<^verbatim>\<open>() => { strategy.work(this.cdRef, scope); return notification.value; }\<close>:
  the tick it performs and the value it returns.
\<close>

definition run_work :: "work_closure \<Rightarrow> work_call \<times> jsval" where
  "run_work w =
     (\<lparr>wc_work = work (w_strategy w), wc_cdRef = w_cdRef w, wc_scope = w_scope w\<rparr>,
      value (w_notification w))"

section \<open>The state of one pipe instance\<close>

text \<open>\<^verbatim>\<open>this.subscription\<close>: not yet assigned, a live subscription, or an unsubscribed one.\<close>

datatype subscription_state = NoSubscription | Open | Closed

text \<open>
  The fields of the class (\<open>renderCallback\<close> is \<^verbatim>\<open>_renderCallback\<close>), then the state held
  by the operators of the two subscriptions, then the calls made on the collaborators:
  \<^item> \<open>replay\<close>: the buffer of \<^verbatim>\<open>shareReplay({ bufferSize: 1, refCount: true })\<close>;
  \<^item> \<open>toSkip\<close>: how many emissions \<^verbatim>\<open>skip\<close> still drops;
  \<^item> \<open>latestStrategy\<close>: the last emission of \<^verbatim>\<open>strategy$\<close> seen by \<^verbatim>\<open>withLatestFrom\<close>;
  \<^item> \<open>inner\<close>: the schedule call whose observable \<^verbatim>\<open>switchMap\<close> is subscribed to;
  \<^item> \<open>handlerNexts\<close>, \<open>observerNexts\<close>: the arguments of \<^verbatim>\<open>strategyHandler.next\<close> and
    \<^verbatim>\<open>templateObserver.next\<close>, in order;
  \<^item> \<open>scheduled\<close>: the calls of \<^verbatim>\<open>strategyProvider.schedule\<close>, in order;
  \<^item> \<open>ticks\<close>: the calls of \<^verbatim>\<open>strategy.work\<close>, each with the index of the schedule call
    whose closure made it;
  \<^item> \<open>callbackNexts\<close>: the calls \<^verbatim>\<open>_renderCallback.next(v)\<close>, as (callback, v);
  \<^item> \<open>subscribed\<close>: how many times \<^verbatim>\<open>handleChangeDetection\<close> has subscribed.
\<close>

record RxPush =
  renderedValue :: jsval
  subscription :: subscription_state
  patchZone :: zone_field
  renderCallback :: jsval
  replay :: "RxNotification option"
  toSkip :: nat
  latestStrategy :: "RxStrategyCredentials option"
  inner :: "nat option"
  handlerNexts :: "jsval list"
  observerNexts :: "jsval list"
  scheduled :: "schedule_call list"
  ticks :: "(nat \<times> work_call) list"
  callbackNexts :: "(jsval \<times> jsval) list"
  subscribed :: nat

definition new_RxPush :: RxPush where
  "new_RxPush =
     \<lparr>renderedValue = JUndefined, subscription = NoSubscription, patchZone = ZUndefined,
      renderCallback = JUndefined, replay = None, toSkip = 0, latestStrategy = None,
      inner = None, handlerNexts = [], observerNexts = [], scheduled = [], ticks = [],
      callbackNexts = [], subscribed = 0\<rparr>"

section \<open>The methods of RxPush\<close>

text \<open>
  \<^verbatim>\<open>setPatchZone(patch)\<close>:
  \<^verbatim>\<open>doPatch = patch == null ? this.strategyProvider.config.patchZone : patch\<close>, then
  \<^verbatim>\<open>this.patchZone = doPatch ? this.ngZone : false\<close>.
\<close>

definition setPatchZone :: "deps \<Rightarrow> jsval \<Rightarrow> RxPush \<Rightarrow> RxPush" where
  "setPatchZone d patch st =
     (let doPatch = (if nullish patch then JBool (config_patchZone (strategyProvider d))
                     else patch)
      in st\<lparr>patchZone := (if truthy doPatch then ZNgZone (ngZone d) else ZFalse)\<rparr>)"

text \<open>
  \<^verbatim>\<open>hasInitialValue(value$)\<close>. The argument is what \<^verbatim>\<open>value$\<close> emits synchronously when it
  is subscribed; the result is what the returned observable emits and whether it completes.
  The flag starts false, every emission received before \<^verbatim>\<open>inner.unsubscribe()\<close> sets it,
  then the flag is emitted and the observable completes.
\<close>

definition hasInitialValue :: "'a list \<Rightarrow> bool list \<times> bool" where
  "hasInitialValue sync = (let flag = foldl (\<lambda>h _. True) False sync in ([flag], True))"

text \<open>The observer of the first subscription: \<^verbatim>\<open>({ value }) => { this.renderedValue = value; }\<close>.\<close>

definition setRenderedValue :: "RxNotification \<Rightarrow> RxPush \<Rightarrow> RxPush" where
  "setRenderedValue n st = st\<lparr>renderedValue := value n\<rparr>"

text \<open>An emission entering \<^verbatim>\<open>shareReplay\<close>: it replaces the one buffered value.\<close>

definition shareReplay_next :: "RxNotification \<Rightarrow> RxPush \<Rightarrow> RxPush" where
  "shareReplay_next n st = st\<lparr>replay := Some n\<rparr>"

text \<open>What \<^verbatim>\<open>shareReplay\<close> hands at once to a subscriber that comes after the first.\<close>

definition replayed :: "RxPush \<Rightarrow> RxNotification list" where
  "replayed st = (case replay st of None \<Rightarrow> [] | Some n \<Rightarrow> [n])"

text \<open>
  The operator \<^verbatim>\<open>this.render(scope)\<close> on one notification. \<^verbatim>\<open>withLatestFrom\<close> drops the
  notification while \<^verbatim>\<open>strategy$\<close> has not emitted; otherwise \<^verbatim>\<open>switchMap\<close> calls
  \<^verbatim>\<open>strategyProvider.schedule\<close>, reading \<^verbatim>\<open>this.patchZone\<close> at that moment, and subscribes
  to the observable returned, leaving the one of the previous call. \<open>schedule_args\<close> is
  the pair of arguments of that call; the scope is \<^verbatim>\<open>(this.cdRef as any).context\<close>.
\<close>

definition schedule_args ::
  "deps \<Rightarrow> RxNotification \<Rightarrow> RxStrategyCredentials \<Rightarrow> zone_field \<Rightarrow> schedule_call" where
  "schedule_args d notification strategy pz =
     \<lparr>fn = \<lparr>w_strategy = strategy, w_cdRef = cdRef d,
             w_scope = cdRef_context d, w_notification = notification\<rparr>,
      opt_scope = cdRef_context d,
      opt_strategy = name strategy,
      opt_patchZone = pz\<rparr>"

definition render :: "deps \<Rightarrow> RxNotification \<Rightarrow> RxPush \<Rightarrow> RxPush" where
  "render d n st =
     (case latestStrategy st of
        None \<Rightarrow> st
      | Some strategy \<Rightarrow>
          st\<lparr>scheduled := scheduled st @ [schedule_args d n strategy (patchZone st)],
             inner := Some (length (scheduled st))\<rparr>)"

text \<open>
  One notification reaching the second subscription:
  \<^verbatim>\<open>templateValues$.pipe(skip(isSync ? 1 : 0), this.render(scope), tap(...))\<close>.
\<close>

definition renderSubscription_next :: "deps \<Rightarrow> RxNotification \<Rightarrow> RxPush \<Rightarrow> RxPush" where
  "renderSubscription_next d n st =
     (if 0 < toSkip st then st\<lparr>toSkip := toSkip st - 1\<rparr> else render d n st)"

text \<open>
  The \<^verbatim>\<open>tap\<close> after \<^verbatim>\<open>this.render(scope)\<close>: \<^verbatim>\<open>this._renderCallback?.next(v)\<close>, which does
  nothing when the callback is null or undefined. The field is typed \<^verbatim>\<open>NextObserver\<close>; the
  call is recorded with the value the field holds.
\<close>

definition renderCallback_tap :: "jsval \<Rightarrow> RxPush \<Rightarrow> RxPush" where
  "renderCallback_tap v st =
     (if nullish (renderCallback st) then st
      else st\<lparr>callbackNexts := callbackNexts st @ [(renderCallback st, v)]\<rparr>)"

text \<open>
  The projection of the outer \<^verbatim>\<open>switchMap((isSync) => ...)\<close>: the inner pipeline is
  subscribed. \<^verbatim>\<open>withLatestFrom\<close> subscribes to \<^verbatim>\<open>strategy$\<close> first (\<open>strats\<close> is what
  \<^verbatim>\<open>strategy$\<close> emits at that moment), then \<^verbatim>\<open>skip\<close> subscribes to \<^verbatim>\<open>templateValues$\<close>
  and receives the buffered notification, if there is one.
\<close>

definition subscribeRender ::
  "deps \<Rightarrow> RxStrategyCredentials list \<Rightarrow> bool \<Rightarrow> RxPush \<Rightarrow> RxPush" where
  "subscribeRender d strats isSync st =
     foldl (\<lambda>s n. renderSubscription_next d n s)
       (st\<lparr>latestStrategy := (if strats = [] then None else Some (last strats)),
           toSkip := (if isSync then 1 else 0),
           inner := None\<rparr>)
       (replayed st)"

text \<open>
  \<^verbatim>\<open>handleChangeDetection()\<close>. \<open>ns\<close> is what \<^verbatim>\<open>templateObserver.values$\<close> emits
  synchronously when the first subscription connects \<^verbatim>\<open>shareReplay\<close> to it: each
  notification that passes \<^verbatim>\<open>onlyValues()\<close> is buffered and handed to the only observer
  there is yet (\<open>connect_next\<close>). Then
  \<^verbatim>\<open>hasInitialValue(this.templateValues$)\<close> is subscribed: it subscribes to
  \<^verbatim>\<open>templateValues$\<close>, so it sees the buffered notification, and each boolean it emits goes
  through the outer \<^verbatim>\<open>switchMap\<close>. (\<^verbatim>\<open>untracked\<close> runs its argument outside the reactive
  context of the template and returns its result; it changes nothing here.)
\<close>

definition connect_next :: "RxPush \<Rightarrow> RxNotification \<Rightarrow> RxPush" where
  "connect_next st n = setRenderedValue n (shareReplay_next n st)"

definition handleChangeDetection ::
  "deps \<Rightarrow> RxStrategyCredentials list \<Rightarrow> RxNotification list \<Rightarrow> RxPush \<Rightarrow> RxPush" where
  "handleChangeDetection d strats ns st =
     (let s1 = foldl connect_next st (onlyValues ns);
          s2 = foldl (\<lambda>s isSync. subscribeRender d strats isSync s) s1
                 (fst (hasInitialValue (replayed s1)))
      in s2\<lparr>subscribed := subscribed s2 + 1\<rparr>)"

text \<open>
  Notifications emitted by \<^verbatim>\<open>templateObserver.values$\<close> while both subscriptions are live:
  \<^verbatim>\<open>onlyValues()\<close>, then for each notification that passes (\<open>both_next\<close>) \<^verbatim>\<open>shareReplay\<close>
  and the two observers, in the order in which they subscribed.
\<close>

definition both_next :: "deps \<Rightarrow> RxPush \<Rightarrow> RxNotification \<Rightarrow> RxPush" where
  "both_next d st n =
     renderSubscription_next d n (setRenderedValue n (shareReplay_next n st))"

definition templateValues_next :: "deps \<Rightarrow> RxNotification list \<Rightarrow> RxPush \<Rightarrow> RxPush" where
  "templateValues_next d ns st = foldl (both_next d) st (onlyValues ns)"

definition strategyHandler_next :: "jsval \<Rightarrow> RxPush \<Rightarrow> RxPush" where
  "strategyHandler_next v st = st\<lparr>handlerNexts := handlerNexts st @ [v]\<rparr>"

definition templateObserver_next :: "jsval \<Rightarrow> RxPush \<Rightarrow> RxPush" where
  "templateObserver_next v st = st\<lparr>observerNexts := observerNexts st @ [v]\<rparr>"

text \<open>
  The strategy provider runs the closure it was given in its \<open>k\<close>-th call of \<^verbatim>\<open>schedule\<close>,
  and the observable returned by that call emits the closure's result. The provider can
  only run a closure it has received. The result reaches the \<^verbatim>\<open>tap\<close> when the pipe is
  still subscribed to the observable of that call.
\<close>

definition workRun :: "nat \<Rightarrow> RxPush \<Rightarrow> RxPush" where
  "workRun k st =
     (if k < length (scheduled st) then
        (let (tick, v) = run_work (fn (scheduled st ! k));
             s1 = st\<lparr>ticks := ticks st @ [(k, tick)]\<rparr>
         in if subscription s1 = Open \<and> inner s1 = Some k then renderCallback_tap v s1
            else s1)
      else st)"

text \<open>
  What the collaborators outside this file send to the pipe: \<^verbatim>\<open>templateObserver.values$\<close>
  emits a notification, \<^verbatim>\<open>strategyHandler.strategy$\<close> emits strategy credentials, the
  strategy provider runs a scheduled closure. The first two reach the pipe only while it
  is subscribed.
\<close>

datatype emission =
    Values RxNotification
  | Strategy RxStrategyCredentials
  | Work nat

fun emit :: "deps \<Rightarrow> RxPush \<Rightarrow> emission \<Rightarrow> RxPush" where
  "emit d st (Values n) =
     (if subscription st = Open then templateValues_next d [n] st else st)"
| "emit d st (Strategy s) =
     (if subscription st = Open then st\<lparr>latestStrategy := Some s\<rparr> else st)"
| "emit d st (Work k) = workRun k st"

fun values_of :: "emission list \<Rightarrow> RxNotification list" where
  "values_of [] = []"
| "values_of (Values n # es) = n # values_of es"
| "values_of (_ # es) = values_of es"

fun strategies_of :: "emission list \<Rightarrow> RxStrategyCredentials list" where
  "strategies_of [] = []"
| "strategies_of (Strategy s # es) = s # strategies_of es"
| "strategies_of (_ # es) = strategies_of es"

text \<open>
  \<^verbatim>\<open>transform(potentialObservable, config, renderCallback)\<close>, returning the value and the
  new state. One more argument, \<open>ems\<close>, stands for what the collaborators send to the pipe
  during the call, in order. In the first call the pipe subscribes at the end, in
  \<^verbatim>\<open>handleChangeDetection\<close>: the notifications among \<open>ems\<close> are those emitted when the first
  subscription connects, and the strategies those emitted when \<^verbatim>\<open>withLatestFrom\<close>
  subscribes; no closure can run then, since nothing has been scheduled. In a later call
  \<open>ems\<close> follows \<^verbatim>\<open>strategyHandler.next\<close> and \<^verbatim>\<open>templateObserver.next\<close>.
\<close>

definition transform ::
  "deps \<Rightarrow> jsval \<Rightarrow> jsval \<Rightarrow> jsval \<Rightarrow> emission list \<Rightarrow> RxPush \<Rightarrow> jsval \<times> RxPush" where
  "transform d potentialObservable config renderCallbackArg ems st =
     (let s1 = st\<lparr>renderCallback := renderCallbackArg\<rparr>;
          s2 = (if truthy config then
                  (if isRxComponentInput config then
                     setPatchZone d (getProp config ''patchZone'')
                       ((strategyHandler_next (getProp config ''strategy'') s1)
                          \<lparr>renderCallback := getProp config ''renderCallback''\<rparr>)
                   else strategyHandler_next config s1)
                else s1);
          s3 = templateObserver_next potentialObservable s2;
          s4 = (if subscription s3 = NoSubscription
                then (handleChangeDetection d (strategies_of ems) (values_of ems) s3)
                       \<lparr>subscription := Open\<rparr>
                else foldl (emit d) s3 ems)
      in (renderedValue s4, s4))"

text \<open>\<^verbatim>\<open>ngOnDestroy()\<close>: \<^verbatim>\<open>this.subscription?.unsubscribe()\<close>.\<close>

definition ngOnDestroy :: "RxPush \<Rightarrow> RxPush" where
  "ngOnDestroy st =
     (if subscription st = NoSubscription then st
      else st\<lparr>subscription := Closed, inner := None\<rparr>)"

section \<open>Runs of a pipe instance\<close>

text \<open>
  What happens to a pipe instance, in order: the framework calls \<^verbatim>\<open>transform\<close> or
  \<^verbatim>\<open>ngOnDestroy\<close>, or a collaborator sends something outside a call of \<^verbatim>\<open>transform\<close>.
\<close>

datatype event =
    Transform jsval jsval jsval "emission list"
  | Emit emission
  | Destroy

fun step :: "deps \<Rightarrow> RxPush \<Rightarrow> event \<Rightarrow> RxPush" where
  "step d st (Transform po config cb ems) = snd (transform d po config cb ems st)"
| "step d st (Emit e) = emit d st e"
| "step d st Destroy = ngOnDestroy st"

definition run :: "deps \<Rightarrow> event list \<Rightarrow> RxPush" where
  "run d evs = foldl (step d) new_RxPush evs"

text \<open>What the collaborators send during one event, and the notifications among it.\<close>

fun emissions :: "event \<Rightarrow> emission list" where
  "emissions (Transform po config cb ems) = ems"
| "emissions (Emit e) = [e]"
| "emissions Destroy = []"


fun is_Work :: "emission \<Rightarrow> bool" where
  "is_Work (Work k) = True"
| "is_Work _ = False"



section \<open>The decorator of the pipe\<close>



section \<open>The actions utility\<close>

text \<open>
  Modelled from the spec: the implementation of \<^verbatim>\<open>rxActions\<close> (the package
  \<^verbatim>\<open>@rx-angular/state/actions\<close>) is not among the sources; the model follows the spec and
  the documentation page \<^verbatim>\<open>apps/docs/docs/state/actions/actions.mdx\<close>. For a property
  \<^verbatim>\<open>K\<close> of the declared interface the utility gives
  \<^item> \<^verbatim>\<open>K(value)\<close>, which dispatches: the value, passed through the transform configured for
    \<^verbatim>\<open>K\<close> when there is one ("transforms the event before emission"), is emitted on the
    stream \<^verbatim>\<open>K$\<close>;
  \<^item> \<^verbatim>\<open>K$\<close>, the stream of the action;
  \<^item> \<^verbatim>\<open>onK(behaviour, sideEffect)\<close>, which subscribes the side effect to
    \<^verbatim>\<open>behaviour(K$)\<close> and returns a cleanup function; calling it stops the side effect.
  A stream is kept as the log of what it has emitted. A behaviour is an operator applied
  to each emission on its own: it gives the values for which the side effect runs. The
  cleanup function returned by \<^verbatim>\<open>onK\<close> is named by the index of the binding.
\<close>

record effect_binding =
  eb_key :: string
  eb_behaviour :: "jsval \<Rightarrow> jsval list"
  eb_active :: bool

record RxActions =
  transforms :: "(string \<times> (jsval \<Rightarrow> jsval)) list"
  emitted :: "(string \<times> jsval) list"
  bindings :: "effect_binding list"
  executions :: "(nat \<times> jsval) list"

text \<open>Modelled from the spec: \<^verbatim>\<open>rxActions(({ transforms }) => transforms({...}))\<close>.\<close>

definition rxActions :: "(string \<times> (jsval \<Rightarrow> jsval)) list \<Rightarrow> RxActions" where
  "rxActions ts = \<lparr>transforms = ts, emitted = [], bindings = [], executions = []\<rparr>"

text \<open>Modelled from the spec: the value a dispatch of \<open>v\<close> on \<open>k\<close> emits.\<close>

definition transformed :: "(string \<times> (jsval \<Rightarrow> jsval)) list \<Rightarrow> string \<Rightarrow> jsval \<Rightarrow> jsval" where
  "transformed ts k v = (case map_of ts k of None \<Rightarrow> v | Some f \<Rightarrow> f v)"

text \<open>Modelled from the spec: the side effects one emission on \<open>k\<close> runs, binding by binding.\<close>

fun fire :: "string \<Rightarrow> jsval \<Rightarrow> nat \<Rightarrow> effect_binding list \<Rightarrow> (nat \<times> jsval) list" where
  "fire k v i [] = []"
| "fire k v i (b # bs) =
     (if eb_key b = k \<and> eb_active b then map (Pair i) (eb_behaviour b v) else [])
       @ fire k v (Suc i) bs"

text \<open>Modelled from the spec: the dispatcher \<^verbatim>\<open>K(value)\<close>.\<close>

definition dispatch :: "string \<Rightarrow> jsval \<Rightarrow> RxActions \<Rightarrow> RxActions" where
  "dispatch k v a =
     (let w = transformed (transforms a) k v
      in a\<lparr>emitted := emitted a @ [(k, w)],
           executions := executions a @ fire k w 0 (bindings a)\<rparr>)"

text \<open>Modelled from the spec: what the stream \<^verbatim>\<open>K$\<close> has emitted.\<close>

definition stream :: "string \<Rightarrow> RxActions \<Rightarrow> jsval list" where
  "stream k a = map snd (filter (\<lambda>p. fst p = k) (emitted a))"

text \<open>Modelled from the spec: the binder \<^verbatim>\<open>onK\<close>; it returns the cleanup function.\<close>

definition on_action ::
  "string \<Rightarrow> (jsval \<Rightarrow> jsval list) \<Rightarrow> RxActions \<Rightarrow> nat \<times> RxActions" where
  "on_action k behaviour a =
     (length (bindings a),
      a\<lparr>bindings := bindings a @
           [\<lparr>eb_key = k, eb_behaviour = behaviour, eb_active = True\<rparr>]\<rparr>)"

text \<open>Modelled from the spec: calling a cleanup function.\<close>

definition cleanup :: "nat \<Rightarrow> RxActions \<Rightarrow> RxActions" where
  "cleanup h a =
     (if h < length (bindings a)
      then a\<lparr>bindings := (bindings a)[h := (bindings a ! h)\<lparr>eb_active := False\<rparr>]\<rparr>
      else a)"

text \<open>Modelled from the spec: the uses of an actions object, and a sequence of them.\<close>

datatype action_use =
    Dispatch string jsval
  | On string "jsval \<Rightarrow> jsval list"
  | Cleanup nat

fun use :: "RxActions \<Rightarrow> action_use \<Rightarrow> RxActions" where
  "use a (Dispatch k v) = dispatch k v a"
| "use a (On k behaviour) = snd (on_action k behaviour a)"
| "use a (Cleanup h) = cleanup h a"

text \<open>Modelled from the spec: the values dispatched on \<open>k\<close> in a sequence of uses, in order.\<close>

fun dispatched :: "string \<Rightarrow> action_use list \<Rightarrow> jsval list" where
  "dispatched k [] = []"
| "dispatched k (Dispatch k' v # us) = (if k' = k then [v] else []) @ dispatched k us"
| "dispatched k (_ # us) = dispatched k us"

text \<open>
  Modelled from the spec: a transform. The documentation names the browser function
  \<^verbatim>\<open>Boolean\<close> as one that can be used ("leverage Browser APIs like String and Boolean"):
  it gives the truthiness of its argument.
\<close>

definition js_Boolean :: "jsval \<Rightarrow> jsval" where
  "js_Boolean v = JBool (truthy v)"

section \<open>Sample collaborators and inputs\<close>

definition deps0 :: deps where
  "deps0 = \<lparr>strategyProvider = \<lparr>config_patchZone = True\<rparr>,
            cdRef = 1, cdRef_context = 2, ngZone = 3\<rparr>"

definition normal0 :: RxStrategyCredentials where
  "normal0 = \<lparr>name = ''normal'', work = 7\<rparr>"

definition next_of :: "int \<Rightarrow> RxNotification" where
  "next_of i = \<lparr>kind = Next, value = JNum i\<rparr>"

definition error0 :: RxNotification where
  "error0 = \<lparr>kind = Error, value = JUndefined\<rparr>"

section \<open>Properties\<close>


lemma foldl_keeps: "(\<And>s x. g (f s x) = g s) \<Longrightarrow> g (foldl f s xs) = g s"
  by (induction xs arbitrary: s) simp_all

lemma render_frame:
  "renderedValue (render d n st) = renderedValue st"
  "subscription (render d n st) = subscription st"
  "patchZone (render d n st) = patchZone st"
  "renderCallback (render d n st) = renderCallback st"
  "replay (render d n st) = replay st"
  "toSkip (render d n st) = toSkip st"
  "latestStrategy (render d n st) = latestStrategy st"
  "handlerNexts (render d n st) = handlerNexts st"
  "observerNexts (render d n st) = observerNexts st"
  "ticks (render d n st) = ticks st"
  "callbackNexts (render d n st) = callbackNexts st"
  "subscribed (render d n st) = subscribed st"
  by (simp_all add: render_def split: option.splits)

lemma renderSubscription_next_frame:
  "renderedValue (renderSubscription_next d n st) = renderedValue st"
  "subscription (renderSubscription_next d n st) = subscription st"
  "patchZone (renderSubscription_next d n st) = patchZone st"
  "renderCallback (renderSubscription_next d n st) = renderCallback st"
  "replay (renderSubscription_next d n st) = replay st"
  "latestStrategy (renderSubscription_next d n st) = latestStrategy st"
  "handlerNexts (renderSubscription_next d n st) = handlerNexts st"
  "observerNexts (renderSubscription_next d n st) = observerNexts st"
  "ticks (renderSubscription_next d n st) = ticks st"
  "callbackNexts (renderSubscription_next d n st) = callbackNexts st"
  "subscribed (renderSubscription_next d n st) = subscribed st"
  by (simp_all add: renderSubscription_next_def render_frame)

lemma both_next_frame:
  "renderedValue (both_next d st n) = value n"
  "subscription (both_next d st n) = subscription st"
  "patchZone (both_next d st n) = patchZone st"
  "renderCallback (both_next d st n) = renderCallback st"
  "replay (both_next d st n) = Some n"
  "latestStrategy (both_next d st n) = latestStrategy st"
  "handlerNexts (both_next d st n) = handlerNexts st"
  "observerNexts (both_next d st n) = observerNexts st"
  "ticks (both_next d st n) = ticks st"
  "callbackNexts (both_next d st n) = callbackNexts st"
  "subscribed (both_next d st n) = subscribed st"
  by (simp_all add: both_next_def renderSubscription_next_frame setRenderedValue_def shareReplay_next_def)

lemma templateValues_next_frame:
  "subscription (templateValues_next d ns st) = subscription st"
  "patchZone (templateValues_next d ns st) = patchZone st"
  "renderCallback (templateValues_next d ns st) = renderCallback st"
  "latestStrategy (templateValues_next d ns st) = latestStrategy st"
  "handlerNexts (templateValues_next d ns st) = handlerNexts st"
  "observerNexts (templateValues_next d ns st) = observerNexts st"
  "ticks (templateValues_next d ns st) = ticks st"
  "callbackNexts (templateValues_next d ns st) = callbackNexts st"
  "subscribed (templateValues_next d ns st) = subscribed st"
  unfolding templateValues_next_def
  by (rule foldl_keeps, simp add: both_next_frame)+

lemma workRun_frame:
  "renderedValue (workRun k st) = renderedValue st"
  "subscription (workRun k st) = subscription st"
  "patchZone (workRun k st) = patchZone st"
  "renderCallback (workRun k st) = renderCallback st"
  "replay (workRun k st) = replay st"
  "toSkip (workRun k st) = toSkip st"
  "latestStrategy (workRun k st) = latestStrategy st"
  "inner (workRun k st) = inner st"
  "handlerNexts (workRun k st) = handlerNexts st"
  "observerNexts (workRun k st) = observerNexts st"
  "scheduled (workRun k st) = scheduled st"
  "subscribed (workRun k st) = subscribed st"
  by (simp_all add: workRun_def renderCallback_tap_def Let_def split: prod.splits)

lemma emit_frame:
  "subscription (emit d st e) = subscription st"
  "patchZone (emit d st e) = patchZone st"
  "renderCallback (emit d st e) = renderCallback st"
  "handlerNexts (emit d st e) = handlerNexts st"
  "observerNexts (emit d st e) = observerNexts st"
  "subscribed (emit d st e) = subscribed st"
  by (cases e; simp add: templateValues_next_frame workRun_frame)+

lemma emits_frame:
  "subscription (foldl (emit d) st es) = subscription st"
  "patchZone (foldl (emit d) st es) = patchZone st"
  "renderCallback (foldl (emit d) st es) = renderCallback st"
  "handlerNexts (foldl (emit d) st es) = handlerNexts st"
  "observerNexts (foldl (emit d) st es) = observerNexts st"
  "subscribed (foldl (emit d) st es) = subscribed st"
  by (rule foldl_keeps, simp add: emit_frame)+

lemma connect_next_frame:
  "renderedValue (connect_next st n) = value n"
  "replay (connect_next st n) = Some n"
  "subscription (connect_next st n) = subscription st"
  "patchZone (connect_next st n) = patchZone st"
  "renderCallback (connect_next st n) = renderCallback st"
  "toSkip (connect_next st n) = toSkip st"
  "latestStrategy (connect_next st n) = latestStrategy st"
  "inner (connect_next st n) = inner st"
  "handlerNexts (connect_next st n) = handlerNexts st"
  "observerNexts (connect_next st n) = observerNexts st"
  "scheduled (connect_next st n) = scheduled st"
  "ticks (connect_next st n) = ticks st"
  "callbackNexts (connect_next st n) = callbackNexts st"
  "subscribed (connect_next st n) = subscribed st"
  by (simp_all add: connect_next_def setRenderedValue_def shareReplay_next_def)

lemma connect_frame:
  "subscription (foldl connect_next st ns) = subscription st"
  "patchZone (foldl connect_next st ns) = patchZone st"
  "renderCallback (foldl connect_next st ns) = renderCallback st"
  "handlerNexts (foldl connect_next st ns) = handlerNexts st"
  "observerNexts (foldl connect_next st ns) = observerNexts st"
  "scheduled (foldl connect_next st ns) = scheduled st"
  "ticks (foldl connect_next st ns) = ticks st"
  "callbackNexts (foldl connect_next st ns) = callbackNexts st"
  "subscribed (foldl connect_next st ns) = subscribed st"
  by (rule foldl_keeps, simp add: connect_next_frame)+

lemma connect_renderedValue:
  "renderedValue (foldl connect_next st ns) = (if ns = [] then renderedValue st else value (last ns))"
  by (induction ns arbitrary: st) (simp_all add: connect_next_frame)

lemma connect_replay:
  "replay (foldl connect_next st ns) = (if ns = [] then replay st else Some (last ns))"
  by (induction ns arbitrary: st) (simp_all add: connect_next_frame)

lemma hasInitialValue_eq: "hasInitialValue sync = ([sync \<noteq> []], True)"
proof -
  have "foldl (\<lambda>h _. True) b sync = (b \<or> sync \<noteq> [])" for b
    by (induction sync arbitrary: b) simp_all
  then show ?thesis by (simp add: hasInitialValue_def)
qed

lemma subscribeRender_frame:
  "renderedValue (subscribeRender d strats b st) = renderedValue st"
  "subscription (subscribeRender d strats b st) = subscription st"
  "patchZone (subscribeRender d strats b st) = patchZone st"
  "renderCallback (subscribeRender d strats b st) = renderCallback st"
  "replay (subscribeRender d strats b st) = replay st"
  "latestStrategy (subscribeRender d strats b st) = (if strats = [] then None else Some (last strats))"
  "handlerNexts (subscribeRender d strats b st) = handlerNexts st"
  "observerNexts (subscribeRender d strats b st) = observerNexts st"
  "ticks (subscribeRender d strats b st) = ticks st"
  "callbackNexts (subscribeRender d strats b st) = callbackNexts st"
  "subscribed (subscribeRender d strats b st) = subscribed st"
  by (simp_all add: subscribeRender_def replayed_def renderSubscription_next_frame split: option.splits)

lemma subscribeRender_skips:
  "scheduled (subscribeRender d strats (replayed st \<noteq> []) st) = scheduled st"
  "toSkip (subscribeRender d strats (replayed st \<noteq> []) st) = 0"
  by (simp_all add: subscribeRender_def replayed_def renderSubscription_next_def split: option.splits)

lemma handleChangeDetection_frame:
  "subscription (handleChangeDetection d strats ns st) = subscription st"
  "patchZone (handleChangeDetection d strats ns st) = patchZone st"
  "renderCallback (handleChangeDetection d strats ns st) = renderCallback st"
  "handlerNexts (handleChangeDetection d strats ns st) = handlerNexts st"
  "observerNexts (handleChangeDetection d strats ns st) = observerNexts st"
  "ticks (handleChangeDetection d strats ns st) = ticks st"
  "callbackNexts (handleChangeDetection d strats ns st) = callbackNexts st"
  "subscribed (handleChangeDetection d strats ns st) = subscribed st + 1"
  "latestStrategy (handleChangeDetection d strats ns st) = (if strats = [] then None else Some (last strats))"
  "scheduled (handleChangeDetection d strats ns st) = scheduled st"
  "toSkip (handleChangeDetection d strats ns st) = 0"
  "renderedValue (handleChangeDetection d strats ns st) =
     (if onlyValues ns = [] then renderedValue st else value (last (onlyValues ns)))"
  by (simp_all add: handleChangeDetection_def Let_def hasInitialValue_eq subscribeRender_frame
        subscribeRender_skips connect_frame connect_renderedValue)


lemma both_next_scheduled:
  "scheduled (both_next d st n) = scheduled st @
     (if 0 < toSkip st then []
      else case latestStrategy st of None \<Rightarrow> [] | Some s \<Rightarrow> [schedule_args d n s (patchZone st)])"
  "toSkip (both_next d st n) = toSkip st - 1"
  by (simp_all add: both_next_def renderSubscription_next_def render_def setRenderedValue_def
        shareReplay_next_def split: option.splits)



lemma both_fold_new:
  "\<exists>new. scheduled (foldl (both_next d) st vs) = scheduled st @ new
     \<and> (\<forall>c\<in>set new. \<exists>m s. c = schedule_args d m s (patchZone st))"
proof (induction vs arbitrary: st)
  case Nil
  show ?case by simp
next
  case (Cons n vs)
  obtain new where new: "scheduled (foldl (both_next d) (both_next d st n) vs)
        = scheduled (both_next d st n) @ new"
      "\<forall>c\<in>set new. \<exists>m s. c = schedule_args d m s (patchZone st)"
    using Cons.IH [of "both_next d st n"] by (auto simp: both_next_frame)
  show ?case
    by (rule exI [of _ "(if 0 < toSkip st then []
          else case latestStrategy st of None \<Rightarrow> []
               | Some s \<Rightarrow> [schedule_args d n s (patchZone st)]) @ new"])
       (use new in \<open>auto simp: both_next_scheduled split: option.splits\<close>)
qed

lemma emit_new:
  "\<exists>new. scheduled (emit d st e) = scheduled st @ new
     \<and> (\<forall>c\<in>set new. \<exists>m s. c = schedule_args d m s (patchZone st))"
proof (cases e)
  case (Values n)
  then show ?thesis
    using both_fold_new [of d st "onlyValues [n]"] by (simp add: templateValues_next_def)
next
  case (Strategy s)
  then show ?thesis by simp
next
  case (Work k)
  then show ?thesis by (simp add: workRun_frame)
qed

lemma emits_new:
  "\<exists>new. scheduled (foldl (emit d) st es) = scheduled st @ new
     \<and> (\<forall>c\<in>set new. \<exists>m s. c = schedule_args d m s (patchZone st))"
proof (induction es arbitrary: st)
  case Nil
  show ?case by simp
next
  case (Cons e es)
  obtain new1 where new1: "scheduled (emit d st e) = scheduled st @ new1"
      "\<forall>c\<in>set new1. \<exists>m s. c = schedule_args d m s (patchZone st)"
    using emit_new by blast
  obtain new2 where new2: "scheduled (foldl (emit d) (emit d st e) es)
        = scheduled (emit d st e) @ new2"
      "\<forall>c\<in>set new2. \<exists>m s. c = schedule_args d m s (patchZone st)"
    using Cons.IH [of "emit d st e"] by (auto simp: emit_frame)
  show ?case
    by (rule exI [of _ "new1 @ new2"]) (use new1 new2 in auto)
qed

lemma setPatchZone_frame:
  "renderedValue (setPatchZone d p st) = renderedValue st"
  "subscription (setPatchZone d p st) = subscription st"
  "renderCallback (setPatchZone d p st) = renderCallback st"
  "handlerNexts (setPatchZone d p st) = handlerNexts st"
  "observerNexts (setPatchZone d p st) = observerNexts st"
  "scheduled (setPatchZone d p st) = scheduled st"
  "ticks (setPatchZone d p st) = ticks st"
  "callbackNexts (setPatchZone d p st) = callbackNexts st"
  "subscribed (setPatchZone d p st) = subscribed st"
  by (simp_all add: setPatchZone_def Let_def)

lemma setPatchZone_value:
  "patchZone (setPatchZone d p st) =
     (if (if nullish p then config_patchZone (strategyProvider d) else truthy p)
      then ZNgZone (ngZone d) else ZFalse)"
  by (simp add: setPatchZone_def Let_def)

lemma isRxComponentInput_truthy: "isRxComponentInput c \<Longrightarrow> truthy c"
  by (cases c) (simp_all add: isRxComponentInput_def)

lemma transform_config_fields:
  "handlerNexts (snd (transform d po c cb ems st)) =
     (if truthy c then handlerNexts st @ [if isRxComponentInput c then getProp c ''strategy'' else c]
      else handlerNexts st)"
  "renderCallback (snd (transform d po c cb ems st)) =
     (if isRxComponentInput c then getProp c ''renderCallback'' else cb)"
  "patchZone (snd (transform d po c cb ems st)) =
     (if isRxComponentInput c then patchZone (setPatchZone d (getProp c ''patchZone'') st)
      else patchZone st)"
  "observerNexts (snd (transform d po c cb ems st)) = observerNexts st @ [po]"
  by (auto simp: transform_def Let_def strategyHandler_next_def templateObserver_next_def
        setPatchZone_frame setPatchZone_value emits_frame handleChangeDetection_frame
        dest: isRxComponentInput_truthy)


lemma transform_new:
  "\<exists>new. scheduled (snd (transform d po c cb ems st)) = scheduled st @ new
     \<and> (\<forall>x\<in>set new. \<exists>m s. x = schedule_args d m s (patchZone (snd (transform d po c cb ems st))))"
proof -
  define s3 where "s3 = templateObserver_next po
     (if truthy c then
        (if isRxComponentInput c then
           setPatchZone d (getProp c ''patchZone'')
             ((strategyHandler_next (getProp c ''strategy'') (st\<lparr>renderCallback := cb\<rparr>))
                \<lparr>renderCallback := getProp c ''renderCallback''\<rparr>)
         else strategyHandler_next c (st\<lparr>renderCallback := cb\<rparr>))
      else st\<lparr>renderCallback := cb\<rparr>)"
  have sch: "scheduled s3 = scheduled st"
    by (simp add: s3_def templateObserver_next_def strategyHandler_next_def setPatchZone_frame)
  have tr: "snd (transform d po c cb ems st) =
      (if subscription s3 = NoSubscription
       then (handleChangeDetection d (strategies_of ems) (values_of ems) s3)\<lparr>subscription := Open\<rparr>
       else foldl (emit d) s3 ems)"
    by (simp add: transform_def Let_def s3_def)
  show ?thesis
  proof (cases "subscription s3 = NoSubscription")
    case True
    then show ?thesis by (simp add: tr handleChangeDetection_frame sch)
  next
    case False
    then show ?thesis
      using emits_new [of d s3 ems] by (simp add: tr sch emits_frame)
  qed
qed

text \<open>
  Claim C2. In a call of \<^verbatim>\<open>transform\<close>: when the config is non-null and has an own
  property \<^verbatim>\<open>strategy\<close>, \<^verbatim>\<open>renderCallback\<close> or \<^verbatim>\<open>patchZone\<close> (such a config is truthy, so
  the branch is reached), the strategy handler receives \<^verbatim>\<open>config.strategy\<close>, the render
  callback becomes \<^verbatim>\<open>config.renderCallback\<close> and the patch-zone fallback is applied. For
  every other truthy config the config itself is forwarded to the strategy handler, the
  render callback is the third argument and the patch zone is left as it was. A falsy
  config forwards nothing.
\<close>

theorem transform_config:
  "(isRxComponentInput config \<longrightarrow>
      truthy config
      \<and> handlerNexts (snd (transform d po config cb ems st))
          = handlerNexts st @ [getProp config ''strategy'']
      \<and> renderCallback (snd (transform d po config cb ems st)) = getProp config ''renderCallback''
      \<and> patchZone (snd (transform d po config cb ems st))
          = patchZone (setPatchZone d (getProp config ''patchZone'') st))
   \<and> (truthy config \<and> \<not> isRxComponentInput config \<longrightarrow>
        handlerNexts (snd (transform d po config cb ems st)) = handlerNexts st @ [config]
        \<and> renderCallback (snd (transform d po config cb ems st)) = cb
        \<and> patchZone (snd (transform d po config cb ems st)) = patchZone st)
   \<and> (\<not> truthy config \<longrightarrow>
        handlerNexts (snd (transform d po config cb ems st)) = handlerNexts st
        \<and> renderCallback (snd (transform d po config cb ems st)) = cb
        \<and> patchZone (snd (transform d po config cb ems st)) = patchZone st)"
  using isRxComponentInput_truthy [of config] by (auto simp: transform_config_fields)

text \<open>
  Claim C4, amended. For every call of \<^verbatim>\<open>transform\<close> whose config is recognised by
  \<^verbatim>\<open>isRxComponentInput\<close> (non-null, with an own property \<^verbatim>\<open>strategy\<close>, \<^verbatim>\<open>renderCallback\<close> or
  \<^verbatim>\<open>patchZone\<close>): when \<^verbatim>\<open>config.patchZone\<close> is null or undefined the provider default
  \<^verbatim>\<open>strategyProvider.config.patchZone\<close> decides, otherwise its truthiness does; the field
  \<^verbatim>\<open>patchZone\<close> becomes the injected zone when patching is enabled and \<^verbatim>\<open>false\<close> otherwise.
  Every call of \<^verbatim>\<open>strategyProvider.schedule\<close> made during the call of \<^verbatim>\<open>transform\<close>, and every
  one made for an emission outside it, passes the current value of the field as the
  \<^verbatim>\<open>patchZone\<close> option.
\<close>

theorem patchZone_rule:
  assumes "isRxComponentInput config"
  shows "patchZone (snd (transform d po config cb ems st)) =
           (if (if nullish (getProp config ''patchZone'')
                then config_patchZone (strategyProvider d)
                else truthy (getProp config ''patchZone''))
            then ZNgZone (ngZone d) else ZFalse)
         \<and> (\<forall>c\<in>set (drop (length (scheduled st)) (scheduled (snd (transform d po config cb ems st)))).
               opt_patchZone c = patchZone (snd (transform d po config cb ems st)))
         \<and> (\<forall>c\<in>set (drop (length (scheduled st)) (scheduled (emit d st e))).
               opt_patchZone c = patchZone st)"
proof -
  obtain new where new: "scheduled (snd (transform d po config cb ems st)) = scheduled st @ new"
      "\<forall>x\<in>set new. \<exists>m s. x = schedule_args d m s (patchZone (snd (transform d po config cb ems st)))"
    using transform_new by blast
  obtain new' where new': "scheduled (emit d st e) = scheduled st @ new'"
      "\<forall>x\<in>set new'. \<exists>m s. x = schedule_args d m s (patchZone st)"
    using emit_new by blast
  have "\<forall>c\<in>set new. opt_patchZone c = patchZone (snd (transform d po config cb ems st))"
    using new(2) by (auto simp: schedule_args_def)
  moreover have "\<forall>c\<in>set new'. opt_patchZone c = patchZone st"
    using new'(2) by (auto simp: schedule_args_def)
  ultimately show ?thesis
    using assms by (simp add: new(1) new'(1) transform_config_fields setPatchZone_value)
qed

text \<open>
  Claim C8. A notification of kind Error or Complete emitted by
  \<^verbatim>\<open>templateObserver.values$\<close> leaves the whole state of the pipe as it is: the rendered
  value does not change and nothing is scheduled. The same holds inside a call of
  \<^verbatim>\<open>transform\<close>, the first one included: the call with such a notification among what the
  collaborators send is the call without it.
\<close>

theorem values_only:
  assumes "kind n = Error \<or> kind n = Complete"
  shows "emit d st (Values n) = st
         \<and> transform d po config cb (ems1 @ Values n # ems2) st
             = transform d po config cb (ems1 @ ems2) st"
proof -
  have nv: "onlyValues [n] = []"
    using assms by (auto simp: onlyValues_def onlyValues_pred_def)
  have e: "emit d s (Values n) = s" for s
    by (simp add: templateValues_next_def nv)
  have v: "onlyValues (values_of (ems1 @ Values n # ems2)) = onlyValues (values_of (ems1 @ ems2))"
    using assms by (induction ems1 rule: values_of.induct) (auto simp: onlyValues_def onlyValues_pred_def)
  have s: "strategies_of (ems1 @ Values n # ems2) = strategies_of (ems1 @ ems2)"
    by (induction ems1 rule: strategies_of.induct) simp_all
  have h: "handleChangeDetection d (strategies_of (ems1 @ Values n # ems2)) (values_of (ems1 @ Values n # ems2)) s
        = handleChangeDetection d (strategies_of (ems1 @ ems2)) (values_of (ems1 @ ems2)) s" for s
    by (simp add: handleChangeDetection_def v s)
  have f: "foldl (emit d) s (ems1 @ Values n # ems2) = foldl (emit d) s (ems1 @ ems2)" for s
    by (simp add: e del: emit.simps)
  show ?thesis
    by (simp add: e f h transform_def Let_def del: emit.simps foldl_append)
qed


text \<open>Claim C2 at a config object, a strategy name and the empty string.\<close>

theorem transform_config_witness:
  "isRxComponentInput (JObject [(''strategy'', JString ''immediate'')])
   \<and> handlerNexts (snd (transform deps0 (JObservable 0)
          (JObject [(''strategy'', JString ''immediate'')]) JUndefined [] new_RxPush))
       = [JString ''immediate'']
   \<and> patchZone (snd (transform deps0 (JObservable 0)
          (JObject [(''strategy'', JString ''immediate'')]) JUndefined [] new_RxPush))
       = ZNgZone 3
   \<and> truthy (JString ''native'') \<and> \<not> isRxComponentInput (JString ''native'')
   \<and> handlerNexts (snd (transform deps0 (JObservable 0) (JString ''native'') (JObserver 1) []
          new_RxPush)) = [JString ''native'']
   \<and> renderCallback (snd (transform deps0 (JObservable 0) (JString ''native'') (JObserver 1) []
          new_RxPush)) = JObserver 1
   \<and> \<not> truthy (JString [])
   \<and> handlerNexts (snd (transform deps0 (JObservable 0) (JString []) (JObserver 1) []
          new_RxPush)) = []"
  using transform_config [where config = "JObject [(''strategy'', JString ''immediate'')]"
      and d = deps0 and po = "JObservable 0" and cb = JUndefined and ems = "[]"
      and st = new_RxPush]
    transform_config [where config = "JString ''native''"
      and d = deps0 and po = "JObservable 0" and cb = "JObserver 1" and ems = "[]"
      and st = new_RxPush]
    transform_config [where config = "JString []"
      and d = deps0 and po = "JObservable 0" and cb = "JObserver 1" and ems = "[]"
      and st = new_RxPush]
  by (simp add: isRxComponentInput_def new_RxPush_def setPatchZone_def deps0_def)

text \<open>Claim C4, amended, at \<^verbatim>\<open>{ patchZone: false }\<close> on a subscribed pipe.\<close>

theorem patchZone_rule_witness:
  "isRxComponentInput (JObject [(''patchZone'', JBool False)])
   \<and> patchZone (snd (transform deps0 (JObservable 0) (JObject [(''patchZone'', JBool False)])
        JUndefined [Values (next_of 5)]
        (run deps0 [Transform (JObservable 0) JUndefined JUndefined [Strategy normal0]]))) = ZFalse
   \<and> map opt_patchZone (scheduled (snd (transform deps0 (JObservable 0)
        (JObject [(''patchZone'', JBool False)]) JUndefined [Values (next_of 5)]
        (run deps0 [Transform (JObservable 0) JUndefined JUndefined [Strategy normal0]]))))
       = [ZFalse]"
  using patchZone_rule [where config = "JObject [(''patchZone'', JBool False)]"
      and d = deps0 and po = "JObservable 0" and cb = JUndefined and ems = "[Values (next_of 5)]"
      and st = "run deps0 [Transform (JObservable 0) JUndefined JUndefined [Strategy normal0]]"
      and e = "Values (next_of 5)"]
  by (simp add: isRxComponentInput_def new_RxPush_def setPatchZone_def deps0_def run_def
      transform_def strategyHandler_next_def templateObserver_next_def handleChangeDetection_def
      hasInitialValue_def subscribeRender_def replayed_def onlyValues_def onlyValues_pred_def
      templateValues_next_def both_next_def renderSubscription_next_def render_def
      setRenderedValue_def shareReplay_next_def schedule_args_def next_of_def normal0_def)

text \<open>
  Claim C4 as stated fails at the config \<^verbatim>\<open>{}\<close>, which is a \<^verbatim>\<open>PushInput\<close> (all its
  properties are optional) with \<^verbatim>\<open>patchZone\<close> undefined, under a provider whose default
  enables patching: \<^verbatim>\<open>isRxComponentInput\<close> rejects the config, the object is forwarded to
  the strategy handler as a strategy name, \<^verbatim>\<open>setPatchZone\<close> is not called, and the field
  \<^verbatim>\<open>patchZone\<close> of a new pipe stays undefined instead of becoming the zone.
\<close>

theorem patchZone_counterexample:
  "nullish (getProp (JObject []) ''patchZone'')
   \<and> config_patchZone (strategyProvider deps0)
   \<and> patchZone (snd (transform deps0 (JObservable 0) (JObject []) JUndefined [] new_RxPush))
       \<noteq> ZNgZone (ngZone deps0)
   \<and> patchZone (snd (transform deps0 (JObservable 0) (JObject []) JUndefined [] new_RxPush))
       = ZUndefined
   \<and> handlerNexts (snd (transform deps0 (JObservable 0) (JObject []) JUndefined [] new_RxPush))
       = [JObject []]"
  by (simp add: transform_config_fields isRxComponentInput_def new_RxPush_def deps0_def)

text \<open>Claim C8 at an Error notification, on a pipe that has rendered the value 1.\<close>

theorem values_only_witness:
  "kind error0 = Error
   \<and> emit deps0 (run deps0 [Transform (JObservable 0) JUndefined JUndefined
          [Strategy normal0, Values (next_of 1)]]) (Values error0)
       = run deps0 [Transform (JObservable 0) JUndefined JUndefined
          [Strategy normal0, Values (next_of 1)]]
   \<and> renderedValue (run deps0 [Transform (JObservable 0) JUndefined JUndefined
          [Strategy normal0, Values (next_of 1)]]) = JNum 1"
  using values_only [where n = error0 and d = deps0
      and st = "run deps0 [Transform (JObservable 0) JUndefined JUndefined
          [Strategy normal0, Values (next_of 1)]]"]
  by (simp add: error0_def run_def transform_config_fields transform_def
      handleChangeDetection_frame templateObserver_next_def new_RxPush_def onlyValues_def
      onlyValues_pred_def next_of_def del: emit.simps)





lemma onlyValues_Cons: "onlyValues (n # ns) = onlyValues [n] @ onlyValues ns"
  by (simp add: onlyValues_def)























lemma ngOnDestroy_frame:
  "renderedValue (ngOnDestroy st) = renderedValue st"
  "scheduled (ngOnDestroy st) = scheduled st"
  "ticks (ngOnDestroy st) = ticks st"
  "callbackNexts (ngOnDestroy st) = callbackNexts st"
  "subscribed (ngOnDestroy st) = subscribed st"
  "subscription (ngOnDestroy st) = (if subscription st = NoSubscription then NoSubscription else Closed)"
  by (simp_all add: ngOnDestroy_def)



lemma run_snoc: "run d (evs @ [ev]) = step d (run d evs) ev"
  by (simp add: run_def)


lemma transform_split:
  "\<exists>s3. renderedValue s3 = renderedValue st \<and> subscription s3 = subscription st
     \<and> scheduled s3 = scheduled st \<and> callbackNexts s3 = callbackNexts st
     \<and> ticks s3 = ticks st \<and> subscribed s3 = subscribed st
     \<and> snd (transform d po c cb ems st) =
         (if subscription st = NoSubscription
          then (handleChangeDetection d (strategies_of ems) (values_of ems) s3)
                 \<lparr>subscription := Open\<rparr>
          else foldl (emit d) s3 ems)"
  by (rule exI [of _ "templateObserver_next po
            (if truthy c then
               (if isRxComponentInput c then
                  setPatchZone d (getProp c ''patchZone'')
                    ((strategyHandler_next (getProp c ''strategy'') (st\<lparr>renderCallback := cb\<rparr>))
                       \<lparr>renderCallback := getProp c ''renderCallback''\<rparr>)
                else strategyHandler_next c (st\<lparr>renderCallback := cb\<rparr>))
             else st\<lparr>renderCallback := cb\<rparr>)"])
     (simp add: transform_def Let_def templateObserver_next_def strategyHandler_next_def
        setPatchZone_frame)








lemma emit_ticks:
  "ticks (emit d st e) = ticks st @
     (case e of
        Work k \<Rightarrow> if k < length (scheduled st)
                  then [(k, fst (run_work (fn (scheduled st ! k))))] else []
      | _ \<Rightarrow> [])"
  by (cases e)
     (simp_all add: templateValues_next_frame workRun_def renderCallback_tap_def Let_def
        split: prod.splits)

lemma emit_ticks_ok:
  assumes "\<forall>x\<in>set (ticks st). fst x < length (scheduled st)
             \<and> snd x = fst (run_work (fn (scheduled st ! fst x)))"
  shows "(\<forall>x\<in>set (ticks (emit d st e)). fst x < length (scheduled (emit d st e))
             \<and> snd x = fst (run_work (fn (scheduled (emit d st e) ! fst x))))
         \<and> length (ticks (emit d st e)) \<le> length (ticks st) + length (filter is_Work [e])"
proof -
  obtain new where new: "scheduled (emit d st e) = scheduled st @ new"
    using emit_new by blast
  show ?thesis
    unfolding emit_ticks new using assms
    by (auto simp: nth_append split: emission.splits)
qed

lemma emits_ticks_ok:
  "\<forall>x\<in>set (ticks st). fst x < length (scheduled st)
             \<and> snd x = fst (run_work (fn (scheduled st ! fst x))) \<Longrightarrow>
   (\<forall>x\<in>set (ticks (foldl (emit d) st es)). fst x < length (scheduled (foldl (emit d) st es))
             \<and> snd x = fst (run_work (fn (scheduled (foldl (emit d) st es) ! fst x))))
   \<and> length (ticks (foldl (emit d) st es)) \<le> length (ticks st) + length (filter is_Work es)"
proof (induction es arbitrary: st)
  case Nil
  then show ?case by simp
next
  case (Cons e es)
  have 1: "\<forall>x\<in>set (ticks (emit d st e)). fst x < length (scheduled (emit d st e))
             \<and> snd x = fst (run_work (fn (scheduled (emit d st e) ! fst x)))"
    and 2: "length (ticks (emit d st e)) \<le> length (ticks st) + length (filter is_Work [e])"
    using emit_ticks_ok [OF Cons.prems, of d e] by blast+
  have 3: "length (filter is_Work (e # es)) = length (filter is_Work [e]) + length (filter is_Work es)"
    by simp
  show ?case
    using Cons.IH [OF 1] 2 unfolding 3 by (simp del: emit.simps filter.simps)
qed

lemma step_ticks_ok:
  assumes "\<forall>x\<in>set (ticks st). fst x < length (scheduled st)
             \<and> snd x = fst (run_work (fn (scheduled st ! fst x)))"
  shows "(\<forall>x\<in>set (ticks (step d st ev)). fst x < length (scheduled (step d st ev))
             \<and> snd x = fst (run_work (fn (scheduled (step d st ev) ! fst x))))
         \<and> length (ticks (step d st ev))
             \<le> length (ticks st) + length (filter is_Work (emissions ev))"
proof (cases ev)
  case (Transform po c cb ems)
  obtain s3 where s3: "scheduled s3 = scheduled st" "ticks s3 = ticks st"
      "snd (transform d po c cb ems st) =
         (if subscription st = NoSubscription
          then (handleChangeDetection d (strategies_of ems) (values_of ems) s3)
                 \<lparr>subscription := Open\<rparr>
          else foldl (emit d) s3 ems)"
    using transform_split [of st d po c cb ems] by blast
  have i3: "\<forall>x\<in>set (ticks s3). fst x < length (scheduled s3)
             \<and> snd x = fst (run_work (fn (scheduled s3 ! fst x)))"
    using assms by (simp add: s3(1,2))
  show ?thesis
  proof (cases "subscription st = NoSubscription")
    case True
    then show ?thesis
      using assms Transform by (simp add: s3 handleChangeDetection_frame)
  next
    case False
    then show ?thesis
      using emits_ticks_ok [OF i3, of d ems] Transform by (simp add: s3)
  qed
next
  case (Emit e)
  then show ?thesis
    using emit_ticks_ok [OF assms, of d e] by (simp del: emit.simps)
next
  case Destroy
  then show ?thesis
    using assms by (simp add: ngOnDestroy_frame)
qed

lemma run_ticks_ok:
  "(\<forall>x\<in>set (ticks (run d evs)). fst x < length (scheduled (run d evs))
             \<and> snd x = fst (run_work (fn (scheduled (run d evs) ! fst x))))
   \<and> length (ticks (run d evs)) \<le> length (filter is_Work (concat (map emissions evs)))"
proof (induction evs rule: rev_induct)
  case Nil
  show ?case by (simp add: run_def new_RxPush_def)
next
  case (snoc ev evs)
  have i: "\<forall>x\<in>set (ticks (run d evs)). fst x < length (scheduled (run d evs))
             \<and> snd x = fst (run_work (fn (scheduled (run d evs) ! fst x)))"
    using snoc.IH by blast
  show ?case
    using step_ticks_ok [OF i, of d ev] snoc.IH by (simp add: run_snoc)
qed

lemma step_new:
  "\<exists>new. scheduled (step d st ev) = scheduled st @ new
     \<and> (\<forall>c\<in>set new. \<exists>m s pz. c = schedule_args d m s pz)"
proof (cases ev)
  case (Transform po c cb ems)
  obtain new where new: "scheduled (snd (transform d po c cb ems st)) = scheduled st @ new"
      "\<forall>x\<in>set new. \<exists>m s. x = schedule_args d m s (patchZone (snd (transform d po c cb ems st)))"
    using transform_new by blast
  from new(2) have "\<forall>c\<in>set new. \<exists>m s pz. c = schedule_args d m s pz"
    by blast
  with new(1) show ?thesis
    using Transform by auto
next
  case (Emit e)
  obtain new where new: "scheduled (emit d st e) = scheduled st @ new"
      "\<forall>x\<in>set new. \<exists>m s. x = schedule_args d m s (patchZone st)"
    using emit_new by blast
  from new(2) have "\<forall>c\<in>set new. \<exists>m s pz. c = schedule_args d m s pz"
    by blast
  with new(1) show ?thesis
    using Emit by auto
next
  case Destroy
  then show ?thesis by (simp add: ngOnDestroy_frame)
qed

lemma run_scheduled_form:
  "\<forall>c\<in>set (scheduled (run d evs)). \<exists>m s pz. c = schedule_args d m s pz"
proof (induction evs rule: rev_induct)
  case Nil
  show ?case by (simp add: run_def new_RxPush_def)
next
  case (snoc ev evs)
  obtain new where "scheduled (step d (run d evs) ev) = scheduled (run d evs) @ new"
      "\<forall>c\<in>set new. \<exists>m s pz. c = schedule_args d m s pz"
    using step_new by blast
  then show ?case
    using snoc.IH by (auto simp: run_snoc)
qed

text \<open>
  Claim C3. In every run, each call of \<^verbatim>\<open>strategy.work\<close> (a change-detection tick) was
  made by the closure handed to \<^verbatim>\<open>strategyProvider.schedule\<close> in one of the calls made
  so far; that closure calls the \<^verbatim>\<open>work\<close> of the strategy named in the options of the
  call, on the change detector reference of the pipe and the scope of the options; and
  there are no more ticks than closures run by the provider: the pipe itself makes none.
\<close>

theorem ticks_inside_scheduled_work:
  "(\<forall>x\<in>set (ticks (run d evs)).
      fst x < length (scheduled (run d evs))
      \<and> snd x = fst (run_work (fn (scheduled (run d evs) ! fst x))))
   \<and> (\<forall>c\<in>set (scheduled (run d evs)).
        w_cdRef (fn c) = cdRef d \<and> w_scope (fn c) = opt_scope c
        \<and> name (w_strategy (fn c)) = opt_strategy c)
   \<and> length (ticks (run d evs)) \<le> length (filter is_Work (concat (map emissions evs)))"
proof -
  have "w_cdRef (fn c) = cdRef d \<and> w_scope (fn c) = opt_scope c
        \<and> name (w_strategy (fn c)) = opt_strategy c"
    if "c \<in> set (scheduled (run d evs))" for c
    using run_scheduled_form [of d evs] that by (auto simp: schedule_args_def)
  then show ?thesis
    using run_ticks_ok [of d evs] by blast
qed

text \<open>Claim C3 on a run in which the provider runs the one scheduled closure.\<close>

theorem ticks_inside_scheduled_work_witness:
  "ticks (run deps0 [Transform (JObservable 0) JUndefined JUndefined [Strategy normal0],
        Emit (Values (next_of 2)), Emit (Work 0)])
     = [(0, \<lparr>wc_work = 7, wc_cdRef = 1, wc_scope = 2\<rparr>)]
   \<and> map opt_strategy (scheduled (run deps0
        [Transform (JObservable 0) JUndefined JUndefined [Strategy normal0],
         Emit (Values (next_of 2)), Emit (Work 0)])) = [''normal'']
   \<and> ticks (run deps0 [Transform (JObservable 0) JUndefined JUndefined [Strategy normal0],
        Emit (Values (next_of 2))]) = []"
  using ticks_inside_scheduled_work [where d = deps0
      and evs = "[Transform (JObservable 0) JUndefined JUndefined [Strategy normal0],
        Emit (Values (next_of 2)), Emit (Work 0)]"]
    ticks_inside_scheduled_work [where d = deps0
      and evs = "[Transform (JObservable 0) JUndefined JUndefined [Strategy normal0],
        Emit (Values (next_of 2))]"]
  by (simp add: run_def new_RxPush_def deps0_def normal0_def next_of_def
      transform_def strategyHandler_next_def templateObserver_next_def handleChangeDetection_def
      hasInitialValue_def subscribeRender_def replayed_def onlyValues_def onlyValues_pred_def
      templateValues_next_def both_next_def renderSubscription_next_def render_def
      setRenderedValue_def shareReplay_next_def schedule_args_def workRun_def run_work_def
      renderCallback_tap_def)


lemma use_transforms: "transforms (use a u) = transforms a"
  by (cases u) (simp_all add: dispatch_def on_action_def cleanup_def Let_def)

lemma uses_transforms: "transforms (foldl use a us) = transforms a"
  by (induction us arbitrary: a) (simp_all add: use_transforms)

lemma use_stream:
  "stream k (use a u) = stream k a @ map (transformed (transforms a) k) (dispatched k [u])"
  by (cases u) (simp_all add: stream_def dispatch_def on_action_def cleanup_def Let_def)

lemma dispatched_Cons: "dispatched k (u # us) = dispatched k [u] @ dispatched k us"
  by (cases u) simp_all

lemma uses_stream:
  "stream k (foldl use a us) = stream k a @ map (transformed (transforms a) k) (dispatched k us)"
proof (induction us arbitrary: a)
  case Nil
  show ?case by simp
next
  case (Cons u us)
  show ?case
    using Cons.IH [of "use a u"] dispatched_Cons [of k u us]
    by (simp add: use_stream use_transforms)
qed

text \<open>
  Claim C6, amended. For every key \<open>k\<close> and every sequence of uses of an actions object
  (dispatches on any key, bindings of side effects, cleanups), the stream of \<open>k\<close> has
  emitted, in order, the values dispatched on \<open>k\<close>, each passed through the transform
  configured for \<open>k\<close>; when no transform is configured for \<open>k\<close> it has emitted exactly
  the values dispatched on \<open>k\<close>.
\<close>

theorem action_stream:
  "stream k (foldl use (rxActions ts) us) = map (transformed ts k) (dispatched k us)
   \<and> (map_of ts k = None \<longrightarrow> stream k (foldl use (rxActions ts) us) = dispatched k us)"
proof -
  have 1: "stream k (foldl use (rxActions ts) us) = map (transformed ts k) (dispatched k us)"
    using uses_stream [of k "rxActions ts" us] by (simp add: rxActions_def stream_def)
  have "map (transformed ts k) vs = vs" if "map_of ts k = None" for vs
    by (induction vs) (simp_all add: transformed_def that)
  with 1 show ?thesis by simp
qed

text \<open>Claim C6, amended, for an actions object without transforms.\<close>

theorem action_stream_witness:
  "map_of ([]::(string \<times> (jsval \<Rightarrow> jsval)) list) ''login'' = None
   \<and> stream ''login'' (foldl use (rxActions [])
        [Dispatch ''login'' (JString ''a''), Dispatch ''refresh'' JUndefined,
         Dispatch ''login'' (JString ''b'')]) = [JString ''a'', JString ''b'']"
  using action_stream [where ts = "[]" and k = "''login''"
      and us = "[Dispatch ''login'' (JString ''a''), Dispatch ''refresh'' JUndefined,
         Dispatch ''login'' (JString ''b'')]"]
  by (simp add: transformed_def)

text \<open>
  Claim C6 as stated fails for an action with a transform, here
  \<^verbatim>\<open>transforms({ search: Boolean })\<close>: the value dispatched is \<^verbatim>\<open>'me'\<close>, the value emitted
  is \<^verbatim>\<open>true\<close>. (The documentation's own examples are \<^verbatim>\<open>search: eventValue\<close>, which emits
  the value of the event's target, and \<^verbatim>\<open>greet: (v) => `Hello ${v}`\<close>.)
\<close>

theorem action_stream_counterexample:
  "stream ''search'' (foldl use (rxActions [(''search'', js_Boolean)])
      [Dispatch ''search'' (JString ''me'')]) = [JBool True]
   \<and> dispatched ''search'' [Dispatch ''search'' (JString ''me'')] = [JString ''me'']
   \<and> stream ''search'' (foldl use (rxActions [(''search'', js_Boolean)])
        [Dispatch ''search'' (JString ''me'')])
     \<noteq> dispatched ''search'' [Dispatch ''search'' (JString ''me'')]"
  by (simp add: stream_def dispatch_def rxActions_def transformed_def js_Boolean_def)

lemma fire_index:
  "x \<in> set (fire k v i bs) \<Longrightarrow>
     \<exists>j<length bs. fst x = i + j \<and> eb_active (bs ! j) \<and> eb_key (bs ! j) = k"
proof (induction bs arbitrary: i)
  case Nil
  then show ?case by simp
next
  case (Cons b bs)
  show ?case
  proof (cases "x \<in> set (fire k v (Suc i) bs)")
    case True
    from Cons.IH [OF this] obtain j where "j < length bs" "fst x = Suc i + j"
        "eb_active (bs ! j)" "eb_key (bs ! j) = k"
      by blast
    then show ?thesis
      by (intro exI [of _ "Suc j"]) simp
  next
    case False
    then have "fst x = i \<and> eb_key b = k \<and> eb_active b"
      using Cons.prems by (auto split: if_splits)
    then show ?thesis
      by (intro exI [of _ 0]) simp
  qed
qed

lemma fire_append:
  "fire k v i (bs @ cs) = fire k v i bs @ fire k v (i + length bs) cs"
  by (induction bs arbitrary: i) simp_all

lemma inactive_no_fire:
  "h < length bs \<Longrightarrow> \<not> eb_active (bs ! h) \<Longrightarrow> filter (\<lambda>x. fst x = h) (fire k v 0 bs) = []"
  using fire_index [of _ k v 0 bs] by (fastforce simp: filter_empty_conv)

lemma use_inactive:
  assumes "h < length (bindings a)" and "\<not> eb_active (bindings a ! h)"
  shows "h < length (bindings (use a u)) \<and> \<not> eb_active (bindings (use a u) ! h)
     \<and> filter (\<lambda>x. fst x = h) (executions (use a u)) = filter (\<lambda>x. fst x = h) (executions a)"
proof (cases u)
  case (Dispatch k v)
  then show ?thesis
    using assms inactive_no_fire [OF assms]
    by (simp add: dispatch_def Let_def)
next
  case (On k b)
  then show ?thesis
    using assms by (simp add: on_action_def nth_append)
next
  case (Cleanup g)
  then show ?thesis
    using assms by (simp add: cleanup_def nth_list_update)
qed

lemma uses_inactive:
  "h < length (bindings a) \<Longrightarrow> \<not> eb_active (bindings a ! h) \<Longrightarrow>
     filter (\<lambda>x. fst x = h) (executions (foldl use a us)) = filter (\<lambda>x. fst x = h) (executions a)"
proof (induction us arbitrary: a)
  case Nil
  show ?case by simp
next
  case (Cons u us)
  show ?case
    using use_inactive [OF Cons.prems, of u] Cons.IH [of "use a u"] by simp
qed

lemma fire_new_binding:
  "filter (\<lambda>x. fst x = length bs) (fire k v 0 (bs @ [\<lparr>eb_key = k, eb_behaviour = f, eb_active = True\<rparr>]))
     = map (Pair (length bs)) (f v)"
proof -
  have "filter (\<lambda>x. fst x = length bs) (fire k v 0 bs) = []"
    using fire_index [of _ k v 0 bs] by (fastforce simp: filter_empty_conv)
  moreover have "filter (\<lambda>x. fst x = n) (map (Pair n) ws) = map (Pair n) ws" for n :: nat and ws :: "jsval list"
    by (induction ws) simp_all
  ultimately show ?thesis
    by (simp add: fire_append)
qed

text \<open>
  Claim C7. The binder returns a cleanup function (the index of the new binding). While
  the binding is live, a dispatch on its action runs the side effect for what the
  behaviour gives on the emitted value. After any further uses \<open>us\<close>, once the cleanup
  function has been called, no later use \<open>us'\<close> (dispatches included) adds an execution of
  that side effect.
\<close>

theorem cleanup_stops_effect:
  "fst (on_action k behaviour a) = length (bindings a)
   \<and> filter (\<lambda>x. fst x = length (bindings a))
        (executions (dispatch k v (snd (on_action k behaviour a))))
      = filter (\<lambda>x. fst x = length (bindings a)) (executions a)
          @ map (Pair (length (bindings a))) (behaviour (transformed (transforms a) k v))
   \<and> filter (\<lambda>x. fst x = length (bindings a))
        (executions (foldl use
           (cleanup (fst (on_action k behaviour a)) (foldl use (snd (on_action k behaviour a)) us))
           us'))
      = filter (\<lambda>x. fst x = length (bindings a))
          (executions (foldl use (snd (on_action k behaviour a)) us))"
proof -
  let ?h = "length (bindings a)"
  let ?a1 = "snd (on_action k behaviour a)"
  let ?a2 = "foldl use ?a1 us"
  have len: "?h < length (bindings (foldl use b us))" if "?h < length (bindings b)" for b us
    using that
  proof (induction us arbitrary: b)
    case Nil
    then show ?case by simp
  next
    case (Cons u us)
    have "?h < length (bindings (use b u))"
      using Cons.prems by (cases u) (simp_all add: dispatch_def on_action_def cleanup_def Let_def)
    from Cons.IH [OF this] show ?case by simp
  qed
  have h2: "?h < length (bindings ?a2)"
    by (intro len) (simp add: on_action_def)
  have c: "?h < length (bindings (cleanup ?h ?a2))" "\<not> eb_active (bindings (cleanup ?h ?a2) ! ?h)"
      "executions (cleanup ?h ?a2) = executions ?a2"
    using h2 by (simp_all add: cleanup_def)
  have 1: "fst (on_action k behaviour a) = ?h"
    by (simp add: on_action_def)
  have 2: "filter (\<lambda>x. fst x = ?h) (executions (dispatch k v ?a1))
      = filter (\<lambda>x. fst x = ?h) (executions a)
          @ map (Pair ?h) (behaviour (transformed (transforms a) k v))"
    by (simp add: dispatch_def on_action_def Let_def fire_new_binding)
  have 3: "filter (\<lambda>x. fst x = ?h) (executions (foldl use (cleanup ?h ?a2) us'))
      = filter (\<lambda>x. fst x = ?h) (executions ?a2)"
    using uses_inactive [OF c(1,2), of us'] by (simp add: c(3))
  show ?thesis
    using 2 3 by (simp add: 1)
qed

text \<open>Claim C7 on two dispatches, with and without the cleanup between them.\<close>

theorem cleanup_stops_effect_witness:
  "map snd (executions (foldl use (rxActions [])
      [On ''refresh'' (\<lambda>v. [v]), Dispatch ''refresh'' (JNum 1), Cleanup 0,
       Dispatch ''refresh'' (JNum 2)])) = [JNum 1]
   \<and> map snd (executions (foldl use (rxActions [])
      [On ''refresh'' (\<lambda>v. [v]), Dispatch ''refresh'' (JNum 1),
       Dispatch ''refresh'' (JNum 2)])) = [JNum 1, JNum 2]"
  using cleanup_stops_effect [where a = "rxActions []" and k = "''refresh''"
      and behaviour = "\<lambda>v. [v]" and us = "[Dispatch ''refresh'' (JNum 1)]"
      and us' = "[Dispatch ''refresh'' (JNum 2)]" and v = "JNum 1"]
  by (simp add: rxActions_def on_action_def dispatch_def cleanup_def transformed_def Let_def)


end
